theory Spec2Isabelle
  imports Main "HOL-Library.Log_Nat" "HOL-Library.Sublist"
begin

section \<open>Values shared by the packages\<close>

text \<open>
  A Go \<^verbatim>\<open>[]byte\<close> and a Go \<^verbatim>\<open>string\<close> are both sequences of bytes; a \<^typ>\<open>char\<close>
  is one byte. Lengths and slice indices are never negative where the program uses them,
  so they are natural numbers; every place where the Go expression could go below zero
  is written out at the place.
\<close>

type_synonym bytes = "char list"

text \<open>A Go \<^verbatim>\<open>error\<close> value: \<^verbatim>\<open>io.EOF\<close>, or an error made from a message.\<close>

datatype error = EOF | Error string

text \<open>The run-time panics the program can raise.\<close>

datatype panic =
    NilReader              \<comment> \<open>\<^verbatim>\<open>panic("io.Reader cannot be nil")\<close>\<close>
  | EmptySearchToken       \<comment> \<open>\<^verbatim>\<open>panic("search token cannot be nil/empty")\<close>\<close>
  | OddArgumentCount       \<comment> \<open>\<^verbatim>\<open>panic("stream.NewReplacer: odd argument count")\<close>\<close>
  | SliceBounds            \<comment> \<open>a slice expression out of range\<close>
  | NegativeChanSize       \<comment> \<open>\<^verbatim>\<open>make(chan T, n)\<close> with \<^verbatim>\<open>n < 0\<close>\<close>
  | NilPointer             \<comment> \<open>a method call on a \<^verbatim>\<open>nil\<close> interface value\<close>
  | NegativeMakeLen        \<comment> \<open>\<^verbatim>\<open>make([]byte, n)\<close> with \<^verbatim>\<open>n < 0\<close>\<close>

section \<open>Package fixed: the fixed-size buffer pool\<close>

text \<open>
  \<^verbatim>\<open>Allocator\<close> holds a buffered channel of buffers and the size of each buffer. The
  channel is a queue of at most \<open>freeCap\<close> buffers: a send in a \<^verbatim>\<open>select\<close> with a
  \<^verbatim>\<open>default\<close> branch appends when there is room and does nothing otherwise, a receive
  takes the oldest buffer when there is one.
\<close>

record Allocator =
  freeList :: "bytes list"
  freeCap :: nat
  bufSize :: int

definition NewBytePool :: "int \<Rightarrow> int \<Rightarrow> panic + Allocator" where
  "NewBytePool bufNum bufSize' =
     (if bufNum < 0 then Inl NegativeChanSize
      else Inr \<lparr>freeList = [], freeCap = nat bufNum, bufSize = bufSize'\<rparr>)"

text \<open>
  \<^verbatim>\<open>Get\<close> returns \<^verbatim>\<open>nil\<close> (\<open>None\<close>) for a size that is not the pool's, a pooled
  buffer when there is one, and a fresh zeroed buffer otherwise; making a buffer of a
  negative size panics.
\<close>

definition Get :: "Allocator \<Rightarrow> int \<Rightarrow> panic + (bytes option \<times> Allocator)" where
  "Get fp size' =
     (if bufSize fp \<noteq> size' then Inr (None, fp)
      else (case freeList fp of
              b # rest \<Rightarrow> Inr (Some b, fp\<lparr>freeList := rest\<rparr>)
            | [] \<Rightarrow>
                if bufSize fp < 0 then Inl NegativeMakeLen
                else Inr (Some (replicate (nat (bufSize fp)) (CHR 0x00)), fp)))"

definition Put :: "Allocator \<Rightarrow> bytes \<Rightarrow> error option \<times> Allocator" where
  "Put fp b =
     (if int (length b) \<noteq> bufSize fp
      then (Some (Error ''invalid buffer size that's put into fixed size pool buffer''), fp)
      else if length (freeList fp) < freeCap fp
      then (None, fp\<lparr>freeList := freeList fp @ [b]\<rparr>)
      else (None, fp))"

section \<open>float64 arithmetic\<close>

text \<open>
  The growth ratio is a Go \<^verbatim>\<open>float64\<close>. A finite \<^verbatim>\<open>float64\<close> is a rational number, and
  every operation the program uses (the conversion of an \<^verbatim>\<open>int\<close>, a quotient, a product)
  is the exact result rounded to the nearest number with a 53-bit significand, ties to the
  even significand. All values here are quotients and products of lengths, far inside the
  normal range, so neither overflow nor subnormal numbers are modelled.

  \<open>log2_floor x\<close> is the exponent \<open>e\<close> with \<open>2\<^sup>e \<le> x < 2\<^sup>e\<^sup>+\<^sup>1\<close> for a positive \<open>x\<close>: the
  difference of the bit lengths of numerator and denominator, or one less.
\<close>

definition log2_floor :: "rat \<Rightarrow> int" where
  "log2_floor x = (let (a, b) = quotient_of x; d = bitlen a - bitlen b
                   in if 2 powi d \<le> x then d else d - 1)"

definition round_half_even :: "rat \<Rightarrow> int" where
  "round_half_even x = (let f = \<lfloor>x\<rfloor>; d = x - of_int f
     in if d < 1 / 2 then f else if 1 / 2 < d then f + 1 else if even f then f else f + 1)"

definition f64_round :: "rat \<Rightarrow> rat" where
  "f64_round x = (if x = 0 then 0 else
     let u = 2 powi (log2_floor \<bar>x\<bar> - 52) in of_int (round_half_even (x / u)) * u)"

text \<open>\<^verbatim>\<open>float64(n)\<close> for an \<^verbatim>\<open>int\<close>, \<^verbatim>\<open>x / y\<close>, \<^verbatim>\<open>x * y\<close>, and \<^verbatim>\<open>int(x)\<close>, which truncates
  towards zero.\<close>

definition f64_of_nat :: "nat \<Rightarrow> rat" where
  "f64_of_nat n = f64_round (of_nat n)"

definition f64_div :: "rat \<Rightarrow> rat \<Rightarrow> rat" where
  "f64_div x y = f64_round (x / y)"

definition f64_mul :: "rat \<Rightarrow> rat \<Rightarrow> rat" where
  "f64_mul x y = f64_round (x * y)"

definition f64_to_int :: "rat \<Rightarrow> int" where
  "f64_to_int x = (if 0 \<le> x then \<lfloor>x\<rfloor> else \<lceil>x\<rceil>)"

section \<open>Package libio: the replacers\<close>

text \<open>
  \<^verbatim>\<open>bytes.Index(s, sep)\<close> of the Go library: the index of the first instance of \<open>sep\<close> in
  \<open>s\<close>, or \<open>-1\<close> when there is none; an empty \<open>sep\<close> is found at \<open>0\<close>.
\<close>

fun bytes_Index :: "bytes \<Rightarrow> bytes \<Rightarrow> int" where
  "bytes_Index [] sep = (if sep = [] then 0 else - 1)"
| "bytes_Index (c # s) sep =
     (if prefix sep (c # s) then 0
      else (let i = bytes_Index s sep in if i < 0 then - 1 else i + 1))"

text \<open>
  \<^verbatim>\<open>byteReplace\<close> is one search token with its replacement. Its \<^verbatim>\<open>GetSizingHints\<close> returns
  both lengths and the ratio search length over replace length when the replacement is
  the longer one, \<open>-1\<close> otherwise. Its \<^verbatim>\<open>Index\<close> returns the position of the first occurrence
  together with both tokens, found or not. A returned token is an option: \<open>None\<close> is the
  \<^verbatim>\<open>nil\<close> slice.
\<close>

record byteReplace =
  search :: bytes
  replace :: bytes

definition byteReplace_GetSizingHints :: "byteReplace \<Rightarrow> nat \<times> nat \<times> rat" where
  "byteReplace_GetSizingHints b =
     (let searchLen = length (search b);
          replaceLen = length (replace b);
          ratio = (if searchLen < replaceLen
                   then f64_div (f64_of_nat searchLen) (f64_of_nat replaceLen) else - 1)
      in (searchLen, replaceLen, ratio))"

definition byteReplace_Index :: "byteReplace \<Rightarrow> bytes \<Rightarrow> int \<times> bytes option \<times> bytes option" where
  "byteReplace_Index b buf' = (bytes_Index buf' (search b), Some (search b), Some (replace b))"

text \<open>
  \<^verbatim>\<open>replacer\<close> is the set of pairs \<^verbatim>\<open>NewReplacer\<close> builds, with the three hints it collects
  while building. \<^verbatim>\<open>NewReplacer\<close> panics on an odd number of arguments; its loop walks the
  arguments two at a time, skips a pair whose search string is empty, and otherwise
  appends the pair and raises each hint the pair exceeds.
\<close>

record replacer =
  index :: int
  replaces :: "byteReplace list"
  maxSearchLen :: nat
  maxReplaceLen :: nat
  maxRatio :: rat

fun NewReplacer_loop :: "string list \<Rightarrow> replacer \<Rightarrow> replacer" where
  "NewReplacer_loop (old # new # rest) res =
     (if length old = 0 then NewReplacer_loop rest res
      else
        let er = \<lparr>search = old, replace = new\<rparr>;
            res1 = res\<lparr>replaces := replaces res @ [er]\<rparr>;
            (searchLen, replaceLen, ratio) = byteReplace_GetSizingHints er;
            res2 = (if searchLen > maxSearchLen res1 then res1\<lparr>maxSearchLen := searchLen\<rparr> else res1);
            res3 = (if replaceLen > maxReplaceLen res2 then res2\<lparr>maxReplaceLen := replaceLen\<rparr> else res2);
            res4 = (if ratio > maxRatio res3 then res3\<lparr>maxRatio := ratio\<rparr> else res3)
        in NewReplacer_loop rest res4)"
| "NewReplacer_loop oldnews res = res"

definition NewReplacer :: "string list \<Rightarrow> panic + replacer" where
  "NewReplacer oldnews =
     (let res = \<lparr>index = 0, replaces = [], maxSearchLen = 0, maxReplaceLen = 0, maxRatio = - 1\<rparr>
      in if length oldnews mod 2 = 1 then Inl OddArgumentCount
         else Inr (NewReplacer_loop oldnews res))"

definition replacer_GetSizingHints :: "replacer \<Rightarrow> nat \<times> nat \<times> rat" where
  "replacer_GetSizingHints rep = (maxSearchLen rep, maxReplaceLen rep, maxRatio rep)"

text \<open>
  The set's \<^verbatim>\<open>Index\<close> returns \<open>(-1, nil, nil)\<close> on an empty buffer; otherwise it asks every
  member in turn and keeps a member's answer when it found its token and either nothing
  is kept yet or its index is strictly smaller than the kept one.
\<close>

fun Index_loop ::
  "byteReplace list \<Rightarrow> bytes \<Rightarrow> int \<times> bytes option \<times> bytes option
     \<Rightarrow> int \<times> bytes option \<times> bytes option" where
  "Index_loop [] buf' res = res"
| "Index_loop (er # ers) buf' (resIndex, resSearch, resReplace) =
     (case byteReplace_Index er buf' of
        (index', search', replace') \<Rightarrow>
          Index_loop ers buf'
            (if index' \<ge> 0 \<and> (resIndex = - 1 \<or> index' < resIndex)
             then (index', search', replace')
             else (resIndex, resSearch, resReplace)))"

definition replacer_Index :: "replacer \<Rightarrow> bytes \<Rightarrow> int \<times> bytes option \<times> bytes option" where
  "replacer_Index rep buf' =
     (if length buf' = 0 then (- 1, None, None)
      else Index_loop (replaces rep) buf' (- 1, None, None))"

section \<open>The underlying reader\<close>

text \<open>
  The source the stream reads from is any \<^verbatim>\<open>io.Reader\<close>. The model is a reader over a fixed
  input that hands it out in chunks: \<open>pending\<close> is what it has not delivered yet, \<open>chunks\<close>
  bounds the size of each coming delivery (with no entry left it delivers all that fits),
  \<open>final\<close> is the condition it reports once the input is exhausted, and
  \<open>final_with_data\<close> says whether it reports that condition already together with the last
  bytes, as \<^verbatim>\<open>io.Reader\<close> allows. A call with room for \<open>cap\<close> bytes returns the bytes written
  to the front of the slice, the error, and the reader afterwards. Like \<^verbatim>\<open>strings.Reader\<close>
  it returns no bytes and no error when the slice is empty and input remains.
\<close>

record reader =
  pending :: bytes
  chunks :: "nat list"
  final :: error
  final_with_data :: bool

definition reader_Read :: "reader \<Rightarrow> nat \<Rightarrow> bytes \<times> error option \<times> reader" where
  "reader_Read rd cap =
     (if pending rd = [] then ([], Some (final rd), rd)
      else
        let want = (case chunks rd of [] \<Rightarrow> length (pending rd) | k # ks \<Rightarrow> k);
            n = min cap (min want (length (pending rd)));
            rest = drop n (pending rd)
        in (take n (pending rd),
            (if rest = [] \<and> final_with_data rd then Some (final rd) else None),
            rd\<lparr>pending := rest, chunks := tl (chunks rd)\<rparr>))"

section \<open>StreamReplacingReader\<close>

definition defaultBufSize :: nat where
  "defaultBufSize = 4096"

text \<open>
  The fields of the struct. \<open>r_reader\<close> is the field \<^verbatim>\<open>r\<close> and \<open>max_buf\<close> the field \<^verbatim>\<open>max\<close>.
  The two interface fields are options: \<open>None\<close> is \<^verbatim>\<open>nil\<close>, as in the zero value
  \<^verbatim>\<open>&StreamReplacingReader{}\<close>. A \<^verbatim>\<open>nil\<close> buffer is the empty list.
\<close>

record StreamReplacingReader =
  replacer :: "replacer option"
  maxSearchTokenLen :: nat
  r_reader :: "reader option"
  err :: "error option"
  buf :: bytes
  buf0 :: nat
  buf1 :: nat
  max_buf :: nat

definition zero_StreamReplacingReader :: StreamReplacingReader where
  "zero_StreamReplacingReader =
     \<lparr>replacer = None, maxSearchTokenLen = 0, r_reader = None, err = None,
      buf = [], buf0 = 0, buf1 = 0, max_buf = 0\<rparr>"

text \<open>
  \<^verbatim>\<open>ResetEx\<close> panics on a \<^verbatim>\<open>nil\<close> reader and on a replacer whose longest search token is
  empty. It keeps the buffer it has unless that is shorter than
  \<^verbatim>\<open>max(defaultBufSize, max(maxSearchTokenLen, maxReplaceTokenLen))\<close>, and sets \<^verbatim>\<open>max\<close> to
  the length of the buffer or, for a positive ratio, to
  \<^verbatim>\<open>int(ratio * float64(len(r.buf)))\<close>.
\<close>

definition ResetEx ::
  "StreamReplacingReader \<Rightarrow> reader option \<Rightarrow> replacer \<Rightarrow> panic + StreamReplacingReader" where
  "ResetEx st r1 rep =
     (case r1 of
        None \<Rightarrow> Inl NilReader
      | Some rd \<Rightarrow>
          (case replacer_GetSizingHints rep of
             (maxSearchTokenLen', maxReplaceTokenLen, maxSearchOverReplaceLenRatio) \<Rightarrow>
               if maxSearchTokenLen' = 0 then Inl EmptySearchToken
               else
                 let bufSize = max defaultBufSize (max maxSearchTokenLen' maxReplaceTokenLen);
                     buf' = (if length (buf st) < bufSize then replicate bufSize (CHR 0x00)
                             else buf st);
                     max' = (if maxSearchOverReplaceLenRatio > 0
                             then nat (f64_to_int (f64_mul maxSearchOverReplaceLenRatio
                                                     (f64_of_nat (length buf'))))
                             else length buf')
                 in Inr (st\<lparr>replacer := Some rep, maxSearchTokenLen := maxSearchTokenLen',
                            r_reader := Some rd, err := None, buf := buf',
                            buf0 := 0, buf1 := 0, max_buf := max'\<rparr>)))"

text \<open>\<^verbatim>\<open>(*replacer).Replace\<close> resets a fresh \<^verbatim>\<open>StreamReplacingReader\<close>.\<close>

definition Replace :: "replacer \<Rightarrow> reader option \<Rightarrow> panic + StreamReplacingReader" where
  "Replace rep src = ResetEx zero_StreamReplacingReader src rep"

text \<open>
  \<open>slice b lo hi\<close> is the content of \<^verbatim>\<open>b[lo:hi]\<close> and \<open>copy_at b lo hi src\<close> is the buffer \<open>b\<close>
  after \<^verbatim>\<open>copy(b[lo:hi], src)\<close>, which copies as many bytes as the shorter of the two holds
  and reads \<open>src\<close> before it writes (the built-in \<^verbatim>\<open>copy\<close> allows overlap). Both are used
  only after the bounds \<open>lo \<le> hi \<le> length b\<close> have been checked; a slice expression outside
  them panics.
\<close>

definition slice :: "bytes \<Rightarrow> nat \<Rightarrow> nat \<Rightarrow> bytes" where
  "slice b lo hi = take (hi - lo) (drop lo b)"

definition copy_at :: "bytes \<Rightarrow> nat \<Rightarrow> nat \<Rightarrow> bytes \<Rightarrow> bytes" where
  "copy_at b lo hi src =
     (let n = min (hi - lo) (length src) in take lo b @ take n src @ drop (lo + n) b)"

definition len :: "bytes option \<Rightarrow> nat" where
  "len s = (case s of None \<Rightarrow> 0 | Some b \<Rightarrow> length b)"

definition content :: "bytes option \<Rightarrow> bytes" where
  "content s = (case s of None \<Rightarrow> [] | Some b \<Rightarrow> b)"

text \<open>
  One pass of the inner loop of \<^verbatim>\<open>Read\<close>: it either leaves the loop (\<open>Break\<close>) or goes
  round again (\<open>Continue\<close>).

  Without a match \<^verbatim>\<open>r.buf0 = max(r.buf0, r.buf1-r.maxSearchTokenLen+1)\<close>; where the Go
  difference is zero or negative the maximum is \<open>buf0\<close>, as it is with the truncated
  difference of natural numbers. With a match at \<open>idx\<close> (already offset by \<open>buf0\<close>) the
  slice expressions \<^verbatim>\<open>r.buf[idx+replaceTokenLen : r.buf1+lenDelta]\<close>,
  \<^verbatim>\<open>r.buf[idx+searchTokenLen : r.buf1]\<close> and \<^verbatim>\<open>r.buf[idx : idx+replaceTokenLen]\<close> are in
  bounds exactly when \<open>idx + searchTokenLen \<le> buf1\<close> and \<open>buf1 + lenDelta \<le> length buf\<close>;
  under the first of these \<open>buf1 + lenDelta\<close> is \<open>buf1 + replaceTokenLen - searchTokenLen\<close>
  without truncation.
\<close>

datatype 'a step = Break 'a | Continue 'a

definition scan_body :: "StreamReplacingReader \<Rightarrow> panic + StreamReplacingReader step" where
  "scan_body st =
     (case replacer st of
        None \<Rightarrow> Inl NilPointer
      | Some rep \<Rightarrow>
          if \<not> (buf0 st \<le> buf1 st \<and> buf1 st \<le> length (buf st)) then Inl SliceBounds
          else
            (case replacer_Index rep (slice (buf st) (buf0 st) (buf1 st)) of
               (index', search', replace') \<Rightarrow>
                 if index' < 0
                 then Inr (Break (st\<lparr>buf0 := max (buf0 st) (buf1 st + 1 - maxSearchTokenLen st)\<rparr>))
                 else
                   let searchTokenLen = len search' in
                   if searchTokenLen = 0 then Inl EmptySearchToken
                   else
                     let replaceTokenLen = len replace';
                         idx = nat index' + buf0 st;
                         hi = buf1 st + replaceTokenLen - searchTokenLen
                     in if \<not> (idx + searchTokenLen \<le> buf1 st \<and> hi \<le> length (buf st))
                        then Inl SliceBounds
                        else
                          let b1 = copy_at (buf st) (idx + replaceTokenLen) hi
                                     (slice (buf st) (idx + searchTokenLen) (buf1 st));
                              b2 = copy_at b1 idx (idx + replaceTokenLen) (content replace')
                          in Inr (Continue (st\<lparr>buf := b2, buf0 := idx + replaceTokenLen,
                                               buf1 := hi\<rparr>))))"

lemma scan_body_decreases:
  "scan_body st = Inr (Continue st') \<Longrightarrow> buf1 st' - buf0 st' < buf1 st - buf0 st"
  by (auto simp: scan_body_def Let_def split: option.splits prod.splits if_splits)

text \<open>The inner loop. Every pass that goes round again shortens the unprocessed region, so
  the loop ends.\<close>

function scan :: "StreamReplacingReader \<Rightarrow> panic + StreamReplacingReader" where
  "scan st =
     (case scan_body st of
        Inl p \<Rightarrow> Inl p
      | Inr (Break st') \<Rightarrow> Inr st'
      | Inr (Continue st') \<Rightarrow> scan st')"
  by pat_completeness auto
termination
  by (relation "measure (\<lambda>st. buf1 st - buf0 st)") (auto dest: scan_body_decreases)

declare scan.simps [simp del]

text \<open>
  One pass of the outer loop of \<^verbatim>\<open>Read(p)\<close>, for a \<open>p\<close> of length \<open>plen\<close>. A pass that
  returns gives the bytes written to the front of \<open>p\<close> and the returned error; otherwise
  the loop goes round again with the new state.

  In the first branch \<open>n\<close> bytes are copied out, and after \<^verbatim>\<open>r.buf1 -= n\<close> the test
  \<^verbatim>\<open>r.buf1 == 0\<close> is \<open>buf1 = n\<close>; the slice \<^verbatim>\<open>r.buf[n:r.buf1+n]\<close> ends at the old \<open>buf1\<close>.
\<close>

definition Read_body ::
  "StreamReplacingReader \<Rightarrow> nat
     \<Rightarrow> panic + ((bytes \<times> error option) option \<times> StreamReplacingReader)" where
  "Read_body st plen =
     (if buf0 st > 0 then
        if \<not> buf0 st \<le> length (buf st) then Inl SliceBounds
        else
          let n = min plen (buf0 st);
              out = take n (buf st)
          in if buf1 st = n \<and> err st \<noteq> None
             then Inr (Some (out, err st), st\<lparr>buf0 := buf0 st - n, buf1 := buf1 st - n\<rparr>)
             else if \<not> (n \<le> buf1 st \<and> buf1 st \<le> length (buf st)) then Inl SliceBounds
             else Inr (Some (out, None),
                       st\<lparr>buf0 := buf0 st - n, buf1 := buf1 st - n,
                          buf := copy_at (buf st) 0 (length (buf st)) (slice (buf st) n (buf1 st))\<rparr>)
      else if err st \<noteq> None then Inr (Some ([], err st), st)
      else
        (case r_reader st of
           None \<Rightarrow> Inl NilPointer
         | Some rd \<Rightarrow>
             if \<not> (buf1 st \<le> max_buf st \<and> max_buf st \<le> length (buf st)) then Inl SliceBounds
             else
               (case reader_Read rd (max_buf st - buf1 st) of
                  (data, e, rd') \<Rightarrow>
                    let n = length data;
                        st1 = st\<lparr>r_reader := Some rd', err := e,
                                 buf := copy_at (buf st) (buf1 st) (max_buf st) data\<rparr>
                    in (case (if n > 0 then scan (st1\<lparr>buf1 := buf1 st + n\<rparr>) else Inr st1) of
                          Inl p \<Rightarrow> Inl p
                        | Inr st2 \<Rightarrow>
                            Inr (None, if err st2 \<noteq> None then st2\<lparr>buf0 := buf1 st2\<rparr> else st2)))))"

text \<open>
  \<^verbatim>\<open>Read\<close>: the outer loop has no bound of its own, so the model counts its passes.
  \<open>None\<close> says that the loop has not returned within \<open>fuel\<close> passes.
\<close>

fun Read ::
  "nat \<Rightarrow> StreamReplacingReader \<Rightarrow> nat
     \<Rightarrow> (panic + (bytes \<times> error option \<times> StreamReplacingReader)) option" where
  "Read 0 st plen = None"
| "Read (Suc fuel) st plen =
     (case Read_body st plen of
        Inl p \<Rightarrow> Some (Inl p)
      | Inr (Some (out, e), st') \<Rightarrow> Some (Inr (out, e, st'))
      | Inr (None, st') \<Rightarrow> Read fuel st' plen)"

section \<open>Pulling a whole stream\<close>

text \<open>
  A consumer in the manner of \<^verbatim>\<open>io.ReadAll\<close>: it calls \<^verbatim>\<open>Read\<close> with a buffer of \<open>plen\<close>
  bytes until a call returns an error, and concatenates what the calls returned.
  \<open>stream_replace\<close> is \<^verbatim>\<open>NewReplacer(oldnews...).Replace(rd)\<close> pulled in this way.
\<close>

fun pull_all ::
  "nat \<Rightarrow> nat \<Rightarrow> StreamReplacingReader \<Rightarrow> nat \<Rightarrow> (panic + (bytes \<times> error)) option" where
  "pull_all 0 fuel st plen = None"
| "pull_all (Suc calls) fuel st plen =
     (case Read fuel st plen of
        None \<Rightarrow> None
      | Some (Inl p) \<Rightarrow> Some (Inl p)
      | Some (Inr (out, Some e, st')) \<Rightarrow> Some (Inr (out, e))
      | Some (Inr (out, None, st')) \<Rightarrow>
          (case pull_all calls fuel st' plen of
             None \<Rightarrow> None
           | Some (Inl p) \<Rightarrow> Some (Inl p)
           | Some (Inr (later, e)) \<Rightarrow> Some (Inr (out @ later, e))))"

definition stream_replace ::
  "string list \<Rightarrow> reader \<Rightarrow> nat \<Rightarrow> nat \<Rightarrow> nat \<Rightarrow> (panic + (bytes \<times> error)) option" where
  "stream_replace oldnews rd plen calls fuel =
     (case NewReplacer oldnews of
        Inl p \<Rightarrow> Some (Inl p)
      | Inr rep \<Rightarrow>
          (case Replace rep (Some rd) of
             Inl p \<Rightarrow> Some (Inl p)
           | Inr st \<Rightarrow> pull_all calls fuel st plen))"

section \<open>Facts about float64 rounding\<close>

text \<open>For a positive \<open>x\<close> the exponent \<open>log2_floor x\<close> is the one with \<open>2\<^sup>e \<le> x < 2\<^sup>e\<^sup>+\<^sup>1\<close>.\<close>

lemma log2_floor_lower:
  assumes "0 < x"
  shows "2 powi (log2_floor x) \<le> x"
proof -
  obtain a b where q: "quotient_of x = (a, b)" by (cases "quotient_of x")
  have b: "0 < b" using quotient_of_denom_pos [OF q] .
  have x: "x = of_int a / of_int b" using quotient_of_div [OF q] .
  have a: "0 < a" using assms b x by (simp add: zero_less_divide_iff)
  define d where "d = bitlen a - bitlen b"
  show ?thesis
  proof (cases "2 powi d \<le> x")
    case True
    then show ?thesis by (simp add: log2_floor_def q d_def)
  next
    case False
    have la: "(2::int) ^ nat (bitlen a - 1) \<le> a" using bitlen_bounds [OF a] by simp
    have lb: "b < (2::int) ^ nat (bitlen b)" using bitlen_bounds [OF b] by simp
    have pa: "1 \<le> bitlen a" using a by (simp add: bitlen_alt_def)
    have pb: "1 \<le> bitlen b" using b by (simp add: bitlen_alt_def)
    have "(2::rat) powi (bitlen a - 1) = of_int (2 ^ nat (bitlen a - 1))"
      using pa by (simp add: power_int_def)
    also have "\<dots> \<le> of_int a" using la by (simp only: of_int_le_iff)
    finally have ra: "(2::rat) powi (bitlen a - 1) \<le> of_int a" .
    have "(of_int b :: rat) \<le> of_int (2 ^ nat (bitlen b))"
      using lb by (simp only: of_int_le_iff)
    also have "\<dots> = 2 powi (bitlen b)" using pb by (simp add: power_int_def)
    finally have rb: "(of_int b :: rat) \<le> 2 powi (bitlen b)" .
    have "(2::rat) powi (d - 1) = 2 powi (bitlen a - 1) / 2 powi (bitlen b)"
      by (simp add: d_def power_int_diff)
    also have "\<dots> \<le> of_int a / of_int b"
      using ra rb b by (simp add: divide_mono)
    finally have "(2::rat) powi (d - 1) \<le> x" by (simp add: x)
    then show ?thesis using False by (simp add: log2_floor_def q d_def)
  qed
qed

lemma log2_floor_upper:
  assumes "0 < x"
  shows "x < 2 powi (log2_floor x + 1)"
proof -
  obtain a b where q: "quotient_of x = (a, b)" by (cases "quotient_of x")
  have b: "0 < b" using quotient_of_denom_pos [OF q] .
  have x: "x = of_int a / of_int b" using quotient_of_div [OF q] .
  have a: "0 < a" using assms b x by (simp add: zero_less_divide_iff)
  define d where "d = bitlen a - bitlen b"
  show ?thesis
  proof (cases "2 powi d \<le> x")
    case False
    then show ?thesis by (simp add: log2_floor_def q d_def)
  next
    case True
    have la: "a < (2::int) ^ nat (bitlen a)" using bitlen_bounds [OF a] by simp
    have lb: "(2::int) ^ nat (bitlen b - 1) \<le> b" using bitlen_bounds [OF b] by simp
    have pa: "1 \<le> bitlen a" using a by (simp add: bitlen_alt_def)
    have pb: "1 \<le> bitlen b" using b by (simp add: bitlen_alt_def)
    have "(of_int a :: rat) < of_int (2 ^ nat (bitlen a))"
      using la by (simp only: of_int_less_iff)
    also have "\<dots> = 2 powi (bitlen a)" using pa by (simp add: power_int_def)
    finally have ra: "(of_int a :: rat) < 2 powi (bitlen a)" .
    have "(2::rat) powi (bitlen b - 1) = of_int (2 ^ nat (bitlen b - 1))"
      using pb by (simp add: power_int_def)
    also have "\<dots> \<le> of_int b" using lb by (simp only: of_int_le_iff)
    finally have rb: "(2::rat) powi (bitlen b - 1) \<le> of_int b" .
    have "of_int a / of_int b < (2::rat) powi (bitlen a) / 2 powi (bitlen b - 1)"
      using ra rb a b by (intro frac_less) auto
    also have "\<dots> = 2 powi (bitlen a - (bitlen b - 1))"
      by (simp only: power_int_diff [symmetric] zero_neq_numeral [symmetric] simp_thms)
    also have "bitlen a - (bitlen b - 1) = d + 1"
      by (simp add: d_def)
    finally have "x < 2 powi (d + 1)" by (simp add: x)
    then show ?thesis using True by (simp add: log2_floor_def q d_def)
  qed
qed

lemma round_half_even_of_int [simp]: "round_half_even (of_int z) = z"
  by (simp add: round_half_even_def)

text \<open>Rounding moves a number by at most half a unit in the last place.\<close>

lemma round_half_even_error: "\<bar>of_int (round_half_even y) - y\<bar> \<le> 1 / 2"
proof -
  define f :: rat where "f = of_int \<lfloor>y\<rfloor>"
  have "f \<le> y" "y < f + 1" unfolding f_def by linarith+
  then show ?thesis
    unfolding round_half_even_def Let_def f_def [symmetric] of_int_add of_int_1 if_distrib [of of_int]
    by (simp add: f_def [symmetric] abs_if del: of_int_floor_le)
qed

lemma f64_round_error:
  assumes "x \<noteq> 0"
  shows "\<bar>f64_round x - x\<bar> \<le> 2 powi (log2_floor \<bar>x\<bar> - 52) / 2"
proof -
  define u :: rat where "u = 2 powi (log2_floor \<bar>x\<bar> - 52)"
  have u: "0 < u" by (simp add: u_def)
  have "f64_round x - x = (of_int (round_half_even (x / u)) - x / u) * u"
    using assms u by (simp add: f64_round_def Let_def u_def [symmetric] algebra_simps)
  then have "\<bar>f64_round x - x\<bar> = \<bar>of_int (round_half_even (x / u)) - x / u\<bar> * u"
    using u by (simp add: abs_mult)
  also have "\<dots> \<le> 1 / 2 * u"
    using round_half_even_error [of "x / u"] u by (intro mult_right_mono) auto
  finally show ?thesis by (simp add: u_def)
qed

text \<open>A number with a significand below \<open>2\<^sup>5\<^sup>3\<close> is a \<^verbatim>\<open>float64\<close>: rounding leaves it as it is.\<close>

lemma f64_round_exact:
  assumes "\<bar>m\<bar> < 2 ^ 53"
  shows "f64_round (of_int m * 2 powi k) = of_int m * 2 powi k"
proof (cases "m = 0")
  case True
  then show ?thesis by (simp add: f64_round_def)
next
  case False
  define x :: rat where "x = of_int m * 2 powi k"
  define e where "e = log2_floor \<bar>x\<bar>"
  have xpos: "0 < \<bar>x\<bar>" using False by (simp add: x_def)
  have "2 powi e \<le> \<bar>x\<bar>" unfolding e_def using xpos by (rule log2_floor_lower)
  also have "\<bar>x\<bar> = of_int \<bar>m\<bar> * 2 powi k" by (simp add: x_def abs_mult)
  also have "\<dots> < 2 ^ 53 * 2 powi k"
    using assms by simp
  also have "\<dots> = 2 powi (53 + k)"
    by (simp add: power_int_add)
  finally have lt: "(2::rat) powi e < 2 powi (53 + k)" .
  have "e < 53 + k"
  proof (rule ccontr)
    assume "\<not> e < 53 + k"
    then have "(2::rat) powi (53 + k) \<le> 2 powi e"
      by (intro power_int_increasing) auto
    with lt show False by simp
  qed
  then have j: "0 \<le> k - (e - 52)" by simp
  have "x / 2 powi (e - 52) = of_int m * 2 powi (k - (e - 52))"
    by (simp add: x_def power_int_diff)
  also have "\<dots> = of_int (m * 2 ^ nat (k - (e - 52)))"
    using j by (simp add: power_int_def)
  finally have q: "x / 2 powi (e - 52) = of_int (m * 2 ^ nat (k - (e - 52)))" .
  have "f64_round x = of_int (m * 2 ^ nat (k - (e - 52))) * 2 powi (e - 52)"
    using False by (simp add: f64_round_def Let_def e_def [symmetric] q x_def [symmetric] del: of_int_mult of_int_power)
       (simp add: x_def)
  also have "\<dots> = x"
    by (metis divide_cancel_right nonzero_mult_div_cancel_right
        power_int_eq_0_iff q zero_neq_numeral)
  finally show ?thesis by (simp add: x_def)
qed

lemma f64_of_nat_exact: "n < 2 ^ 53 \<Longrightarrow> f64_of_nat n = of_nat n"
  using f64_round_exact [of "int n" 0] by (simp add: f64_of_nat_def)

lemma f64_round_numeral [simp]:
  "numeral w < (2::int) ^ 53 \<Longrightarrow> f64_round (numeral w) = numeral w"
  using f64_round_exact [of "numeral w" 0] by simp

lemma f64_round_one [simp]: "f64_round 1 = 1"
  using f64_round_exact [of 1 0] by simp

lemma f64_round_inverse_power2: "f64_round (1 / 2 ^ j) = 1 / 2 ^ j"
proof -
  have "(2::rat) powi (- int j) = 1 / 2 ^ j"
    by (simp add: power_int_minus divide_inverse)
  then show ?thesis using f64_round_exact [of 1 "- int j"] by simp
qed

section \<open>Facts about \<open>bytes_Index\<close>\<close>

lemma bytes_Index_ge: "- 1 \<le> bytes_Index s sep"
  by (induction s) (auto simp: Let_def)

text \<open>A result that is not negative is the position of the first occurrence.\<close>

lemma bytes_Index_found:
  "0 \<le> bytes_Index s sep \<Longrightarrow>
     prefix sep (drop (nat (bytes_Index s sep)) s)
     \<and> (\<forall>j < nat (bytes_Index s sep). \<not> prefix sep (drop j s))"
proof (induction s)
  case Nil
  then show ?case by (simp split: if_splits)
next
  case (Cons c s)
  show ?case
  proof (cases "prefix sep (c # s)")
    case True
    then show ?thesis by simp
  next
    case False
    with Cons.prems have i: "0 \<le> bytes_Index s sep" and e: "bytes_Index (c # s) sep = bytes_Index s sep + 1"
      by (auto simp: Let_def split: if_splits)
    have n: "nat (bytes_Index s sep + 1) = Suc (nat (bytes_Index s sep))" using i by simp
    from Cons.IH [OF i] False show ?thesis
      unfolding e n by (auto simp: less_Suc_eq_0_disj)
  qed
qed

text \<open>A negative result says that the token occurs nowhere.\<close>

lemma bytes_Index_absent:
  "bytes_Index s sep < 0 \<Longrightarrow> j \<le> length s \<Longrightarrow> \<not> prefix sep (drop j s)"
proof (induction s arbitrary: j)
  case Nil
  then show ?case by (simp split: if_splits)
next
  case (Cons c s)
  from Cons.prems(1) have np: "\<not> prefix sep (c # s)" and i: "bytes_Index s sep < 0"
    by (auto simp: Let_def split: if_splits)
  show ?case
  proof (cases j)
    case 0
    with np show ?thesis by simp
  next
    case (Suc k)
    with Cons.prems(2) Cons.IH [OF i, of k] show ?thesis by simp
  qed
qed

section \<open>Building a replacer from a flat list\<close>

text \<open>
  The pairs of a flat list \<open>old, new, old, new, \<dots>\<close>, and those of them that a replacer
  keeps: the ones whose search string is not empty, in the order of the list.
\<close>

fun pairs_of :: "'a list \<Rightarrow> ('a \<times> 'a) list" where
  "pairs_of (a # b # rest) = (a, b) # pairs_of rest"
| "pairs_of rest = []"

definition kept_pairs :: "string list \<Rightarrow> byteReplace list" where
  "kept_pairs oldnews =
     map (\<lambda>p. \<lparr>search = fst p, replace = snd p\<rparr>) (filter (\<lambda>p. fst p \<noteq> []) (pairs_of oldnews))"

lemma kept_pairs_simps [simp]:
  "kept_pairs (old # new # rest) =
     (if old = [] then kept_pairs rest else \<lparr>search = old, replace = new\<rparr> # kept_pairs rest)"
  "kept_pairs [] = []"
  "kept_pairs [x] = []"
  by (simp_all add: kept_pairs_def)

lemma NewReplacer_loop_replaces:
  "replaces (NewReplacer_loop l res) = replaces res @ kept_pairs l"
  by (induction l res rule: NewReplacer_loop.induct) (auto simp: Let_def split: prod.splits)

text \<open>
  C8. \<open>NewReplacer\<close> fails exactly on a list of odd length, and then with the panic for an
  odd argument count. On any other list it returns a replacer whose members are the pairs
  of the list with a search string that is not empty, in the order of the list: a pair
  with an empty search string is dropped and nothing else is.
\<close>

theorem NewReplacer_pairs:
  "((\<exists>p. NewReplacer oldnews = Inl p) \<longleftrightarrow> odd (length oldnews))
   \<and> (\<forall>p. NewReplacer oldnews = Inl p \<longrightarrow> p = OddArgumentCount)
   \<and> (\<forall>rep. NewReplacer oldnews = Inr rep \<longrightarrow> replaces rep = kept_pairs oldnews)"
  by (auto simp: NewReplacer_def Let_def NewReplacer_loop_replaces odd_iff_mod_2_eq_one)

theorem NewReplacer_pairs_witness:
  "\<not> odd (length [''zt'', ''zhangtian'', [], ''x'', ''b'', []])
   \<and> (\<exists>rep. NewReplacer [''zt'', ''zhangtian'', [], ''x'', ''b'', []] = Inr rep
         \<and> replaces rep = [\<lparr>search = ''zt'', replace = ''zhangtian''\<rparr>, \<lparr>search = ''b'', replace = []\<rparr>])
   \<and> NewReplacer [''zt'', ''zhangtian'', ''b''] = Inl OddArgumentCount"
proof -
  let ?l = "[''zt'', ''zhangtian'', [], ''x'', ''b'', []]"
  have e: "\<not> odd (length ?l)" by simp
  with NewReplacer_pairs [of ?l] obtain rep where r: "NewReplacer ?l = Inr rep"
    by (cases "NewReplacer ?l") auto
  with NewReplacer_pairs [of ?l] have k: "replaces rep = kept_pairs ?l" by blast
  have "odd (length [''zt'', ''zhangtian'', ''b''])" by simp
  with NewReplacer_pairs [of "[''zt'', ''zhangtian'', ''b'']"]
  have "NewReplacer [''zt'', ''zhangtian'', ''b''] = Inl OddArgumentCount" by blast
  with e r k show ?thesis by simp
qed

section \<open>The sizing hints of a replacer\<close>

text \<open>The ratio a single pair reports.\<close>

definition ratio_of :: "byteReplace \<Rightarrow> rat" where
  "ratio_of b = snd (snd (byteReplace_GetSizingHints b))"

lemma Max_set_Cons2: "Max (set (a # b # xs)) = Max (set (max a b # xs))"
  by (cases xs) (simp_all add: max.assoc)

lemma NewReplacer_loop_step:
  "old \<noteq> [] \<Longrightarrow>
   NewReplacer_loop (old # new # rest) res =
     NewReplacer_loop rest
       (res\<lparr>replaces := replaces res @ [\<lparr>search = old, replace = new\<rparr>],
            maxSearchLen := max (maxSearchLen res) (length old),
            maxReplaceLen := max (maxReplaceLen res) (length new),
            maxRatio := max (maxRatio res) (ratio_of \<lparr>search = old, replace = new\<rparr>)\<rparr>)"
  by (cases res) (simp add: Let_def byteReplace_GetSizingHints_def ratio_of_def max_def)

lemma NewReplacer_loop_skip:
  "NewReplacer_loop ([] # new # rest) res = NewReplacer_loop rest res"
  by simp

lemma NewReplacer_loop_hints:
  "maxSearchLen (NewReplacer_loop l res) = Max (set (maxSearchLen res # map (\<lambda>b. length (search b)) (kept_pairs l)))
   \<and> maxReplaceLen (NewReplacer_loop l res) = Max (set (maxReplaceLen res # map (\<lambda>b. length (replace b)) (kept_pairs l)))
   \<and> maxRatio (NewReplacer_loop l res) = Max (set (maxRatio res # map ratio_of (kept_pairs l)))"
proof (induction l arbitrary: res rule: pairs_of.induct)
  case (1 old new rest)
  show ?case
  proof (cases "old = []")
    case True
    then show ?thesis using 1 [of res] by simp
  next
    case False
    then show ?thesis
      by (simp only: NewReplacer_loop_step [OF False] 1 kept_pairs_simps if_False list.map Max_set_Cons2)
         simp
  qed
qed simp_all

text \<open>
  What the set reports, for every list: the largest search length, the largest replace
  length and the largest ratio of its members, with \<open>0\<close>, \<open>0\<close> and \<open>-1\<close> for a set without
  members. A member that does not grow reports \<open>-1\<close>, so the ratio of the set is \<open>-1\<close>
  when no member grows.
\<close>

lemma NewReplacer_hints:
  assumes "NewReplacer oldnews = Inr rep"
  shows "replacer_GetSizingHints rep =
           (Max (set (0 # map (\<lambda>b. length (search b)) (replaces rep))),
            Max (set (0 # map (\<lambda>b. length (replace b)) (replaces rep))),
            Max (set (- 1 # map ratio_of (replaces rep))))"
proof -
  let ?res = "\<lparr>index = 0, replaces = [], maxSearchLen = 0, maxReplaceLen = 0, maxRatio = - 1\<rparr>"
  from assms have rep: "rep = NewReplacer_loop oldnews ?res"
    by (simp add: NewReplacer_def Let_def split: if_splits)
  have k: "replaces rep = kept_pairs oldnews"
    by (simp add: rep NewReplacer_loop_replaces)
  show ?thesis
    unfolding replacer_GetSizingHints_def k
    using NewReplacer_loop_hints [of oldnews ?res] by (simp add: rep)
qed

text \<open>
  C3. The claim asks for the smallest ratio among the growing pairs. For the pairs
  \<open>a \<rightarrow> bb\<close> and \<open>c \<rightarrow> dddd\<close> the set reports the search length \<open>1\<close>, the replace length \<open>4\<close>
  and the ratio \<open>1/2\<close>, the larger of the two ratios; the smaller one, \<open>1/4\<close>, is the ratio of
  the second pair.
\<close>

theorem largest_ratio_reported:
  "map_sum id replacer_GetSizingHints (NewReplacer [''a'', ''bb'', ''c'', ''dddd''])
     = Inr (1, 4, 1 / 2)
   \<and> byteReplace_GetSizingHints \<lparr>search = ''a'', replace = ''bb''\<rparr> = (1, 2, 1 / 2)
   \<and> byteReplace_GetSizingHints \<lparr>search = ''c'', replace = ''dddd''\<rparr> = (1, 4, 1 / 4)"
  using f64_round_inverse_power2 [of 1] f64_round_inverse_power2 [of 2]
  by (simp add: NewReplacer_def Let_def replacer_GetSizingHints_def byteReplace_GetSizingHints_def
        f64_div_def f64_of_nat_exact)

section \<open>The leftmost match of a set\<close>

text \<open>The first occurrence of a member's search token in a buffer, as the member reports it.\<close>

definition first_at :: "bytes \<Rightarrow> byteReplace \<Rightarrow> int" where
  "first_at b er = bytes_Index b (search er)"

lemma find_app:
  "List.find P (xs @ ys) = (case List.find P xs of None \<Rightarrow> List.find P ys | Some x \<Rightarrow> Some x)"
  by (induction xs) simp_all

lemma Index_loop_append:
  "Index_loop (xs @ ys) b acc = Index_loop ys b (Index_loop xs b acc)"
  by (induction xs b acc rule: Index_loop.induct) (simp_all add: byteReplace_Index_def)

lemma Index_loop_first_smallest:
  "(if \<forall>er \<in> set ers. first_at b er < 0
    then Index_loop ers b (- 1, None, None) = (- 1, None, None)
    else \<exists>w. Index_loop ers b (- 1, None, None) = (first_at b w, Some (search w), Some (replace w))
             \<and> List.find (\<lambda>er. first_at b er = first_at b w) ers = Some w
             \<and> 0 \<le> first_at b w \<and> (\<forall>er \<in> set ers. 0 \<le> first_at b er \<longrightarrow> first_at b w \<le> first_at b er))"
proof (induction ers rule: rev_induct)
  case Nil
  then show ?case by simp
next
  case (snoc er ers)
  show ?case
  proof (cases "\<forall>e \<in> set ers. first_at b e < 0")
    case True
    with snoc have p: "Index_loop ers b (- 1, None, None) = (- 1, None, None)" by simp
    show ?thesis
    proof (cases "first_at b er < 0")
      case neg: True
      with True p show ?thesis
        by (simp add: Index_loop_append byteReplace_Index_def first_at_def)
    next
      case False
      have "List.find (\<lambda>e. first_at b e = first_at b er) ers = None"
        using True False by (auto simp: find_None_iff)
      with True False p show ?thesis
        by (auto simp: Index_loop_append byteReplace_Index_def first_at_def find_app intro!: exI [of _ er])
    qed
  next
    case False
    with snoc obtain w where
      p: "Index_loop ers b (- 1, None, None) = (first_at b w, Some (search w), Some (replace w))"
      and f: "List.find (\<lambda>e. first_at b e = first_at b w) ers = Some w"
      and w0: "0 \<le> first_at b w" and m: "\<forall>e \<in> set ers. 0 \<le> first_at b e \<longrightarrow> first_at b w \<le> first_at b e"
      by auto
    show ?thesis
    proof (cases "0 \<le> first_at b er \<and> first_at b er < first_at b w")
      case True
      have "List.find (\<lambda>e. first_at b e = first_at b er) ers = None"
        using True m by (fastforce simp: find_None_iff)
      with True False p m show ?thesis
        by (auto simp: Index_loop_append byteReplace_Index_def first_at_def find_app intro!: exI [of _ er])
    next
      case nb: False
      with False p f w0 m show ?thesis
        by (auto simp: Index_loop_append byteReplace_Index_def first_at_def find_app intro!: exI [of _ w])
    qed
  qed
qed

text \<open>
  C5. On an empty buffer, and on a buffer in which no member finds its token, the set's
  \<open>Index\<close> returns \<open>-1\<close> with both tokens \<open>nil\<close>. On any other buffer it returns the pair of
  a member \<open>w\<close> at the index of \<open>w\<close>'s first occurrence, where that index is the smallest
  among the first occurrences of all members that occur, and \<open>w\<close> is the first member in
  the order of registration whose first occurrence is at that index.
\<close>

theorem replacer_Index_smallest_first_registered:
  "(b = [] \<or> (\<forall>er \<in> set (replaces rep). first_at b er < 0)
      \<longrightarrow> replacer_Index rep b = (- 1, None, None))
   \<and> (b \<noteq> [] \<and> (\<exists>er \<in> set (replaces rep). 0 \<le> first_at b er)
      \<longrightarrow> (\<exists>w. replacer_Index rep b = (first_at b w, Some (search w), Some (replace w))
               \<and> List.find (\<lambda>er. first_at b er = first_at b w) (replaces rep) = Some w
               \<and> 0 \<le> first_at b w
               \<and> (\<forall>er \<in> set (replaces rep). 0 \<le> first_at b er \<longrightarrow> first_at b w \<le> first_at b er)))"
proof (intro conjI impI)
  assume "b = [] \<or> (\<forall>er \<in> set (replaces rep). first_at b er < 0)"
  then show "replacer_Index rep b = (- 1, None, None)"
    using Index_loop_first_smallest [of "replaces rep" b]
    by (auto simp: replacer_Index_def)
next
  assume a: "b \<noteq> [] \<and> (\<exists>er \<in> set (replaces rep). 0 \<le> first_at b er)"
  then have "\<not> (\<forall>er \<in> set (replaces rep). first_at b er < 0)" by force
  with Index_loop_first_smallest [of "replaces rep" b] a
  show "\<exists>w. replacer_Index rep b = (first_at b w, Some (search w), Some (replace w))
               \<and> List.find (\<lambda>er. first_at b er = first_at b w) (replaces rep) = Some w
               \<and> 0 \<le> first_at b w
               \<and> (\<forall>er \<in> set (replaces rep). 0 \<le> first_at b er \<longrightarrow> first_at b w \<le> first_at b er)"
    by (simp add: replacer_Index_def)
qed

text \<open>A set in which \<open>ab\<close> and \<open>a\<close> both start where \<open>ab\<close> does, with \<open>ab\<close> registered first.\<close>

definition rep_tie :: replacer where
  "rep_tie = \<lparr>index = 0,
              replaces = [\<lparr>search = ''zz'', replace = ''q''\<rparr>, \<lparr>search = ''ab'', replace = ''X''\<rparr>,
                          \<lparr>search = ''a'', replace = ''Y''\<rparr>, \<lparr>search = ''xa'', replace = ''Z''\<rparr>],
              maxSearchLen = 2, maxReplaceLen = 1, maxRatio = - 1\<rparr>"

theorem replacer_Index_smallest_first_registered_witness:
  "''cab'' \<noteq> [] \<and> 0 \<le> first_at ''cab'' \<lparr>search = ''ab'', replace = ''X''\<rparr>
   \<and> replacer_Index rep_tie ''cab'' = (1, Some ''ab'', Some ''X'')
   \<and> first_at ''qq'' \<lparr>search = ''zz'', replace = ''q''\<rparr> < 0
   \<and> replacer_Index rep_tie ''qq'' = (- 1, None, None)"
proof -
  have h: "''cab'' \<noteq> [] \<and> (\<exists>er \<in> set (replaces rep_tie). 0 \<le> first_at ''cab'' er)"
    by (simp add: rep_tie_def first_at_def)
  from replacer_Index_smallest_first_registered [of "''cab''" rep_tie] h
  obtain w where w: "replacer_Index rep_tie ''cab'' = (first_at ''cab'' w, Some (search w), Some (replace w))"
    and f: "List.find (\<lambda>er. first_at ''cab'' er = first_at ''cab'' w) (replaces rep_tie) = Some w"
    and w0: "0 \<le> first_at ''cab'' w"
    by blast
  from f have "w \<in> set (replaces rep_tie)" by (auto simp: find_Some_iff)
  with w0 f have "w = \<lparr>search = ''ab'', replace = ''X''\<rparr>"
    by (auto simp: rep_tie_def first_at_def)
  with w have c: "replacer_Index rep_tie ''cab'' = (1, Some ''ab'', Some ''X'')"
    by (simp add: first_at_def)
  have n: "\<forall>er \<in> set (replaces rep_tie). first_at ''qq'' er < 0"
    by (simp add: rep_tie_def first_at_def)
  with replacer_Index_smallest_first_registered [of "''qq''" rep_tie]
  have q: "replacer_Index rep_tie ''qq'' = (- 1, None, None)" by blast
  from c q show ?thesis by (simp add: first_at_def)
qed

section \<open>Sizing the buffer on reset\<close>

text \<open>A reader over the input \<open>abc\<close>, and a second \<open>ResetEx\<close> on the result of a first one.\<close>

definition rd_abc :: reader where
  "rd_abc = \<lparr>pending = ''abc'', chunks = [], final = EOF, final_with_data = False\<rparr>"

definition then_ResetEx ::
  "panic + StreamReplacingReader \<Rightarrow> reader option \<Rightarrow> replacer \<Rightarrow> panic + StreamReplacingReader" where
  "then_ResetEx x r1 rep = (case x of Inl p \<Rightarrow> Inl p | Inr st \<Rightarrow> ResetEx st r1 rep)"

text \<open>
  C4, as the code has it. \<open>ResetEx\<close> succeeds exactly for a reader that is not \<open>nil\<close> and a
  replacer whose longest search token is not empty. The buffer then has the length
  \<open>max(4096, maxSearchLen, maxReplaceLen)\<close> when the buffer held before is shorter than
  that, and is the buffer held before otherwise; on a fresh \<open>StreamReplacingReader\<close>, as
  \<open>Replace\<close> makes it, the length is \<open>max(4096, maxSearchLen, maxReplaceLen)\<close>. The fill
  bound is the length of the buffer when the reported ratio is not positive, and otherwise
  the \<^verbatim>\<open>float64\<close> product of the ratio and that length, truncated to an integer.
\<close>

theorem ResetEx_capacity:
  "(ResetEx st r1 rep = Inr st' \<longrightarrow>
      length (buf st') =
        (if length (buf st) < max 4096 (max (maxSearchLen rep) (maxReplaceLen rep))
         then max 4096 (max (maxSearchLen rep) (maxReplaceLen rep))
         else length (buf st))
      \<and> max_buf st' =
        (if 0 < maxRatio rep
         then nat (f64_to_int (f64_mul (maxRatio rep) (f64_of_nat (length (buf st')))))
         else length (buf st')))
   \<and> (Replace rep r1 = Inr st' \<longrightarrow>
        length (buf st') = max 4096 (max (maxSearchLen rep) (maxReplaceLen rep)))
   \<and> ((\<exists>st''. ResetEx st r1 rep = Inr st'') \<longleftrightarrow> r1 \<noteq> None \<and> maxSearchLen rep \<noteq> 0)"
  by (auto simp: ResetEx_def Replace_def zero_StreamReplacingReader_def replacer_GetSizingHints_def
        defaultBufSize_def Let_def split: option.splits if_splits)

theorem ResetEx_capacity_witness:
  "Some rd_abc \<noteq> None
   \<and> maxSearchLen \<lparr>index = 0, replaces = [\<lparr>search = ''a'', replace = ''bb''\<rparr>],
                     maxSearchLen = 1, maxReplaceLen = 2, maxRatio = 1 / 2\<rparr> \<noteq> 0
   \<and> (\<exists>st'. ResetEx zero_StreamReplacingReader (Some rd_abc)
               \<lparr>index = 0, replaces = [\<lparr>search = ''a'', replace = ''bb''\<rparr>],
                maxSearchLen = 1, maxReplaceLen = 2, maxRatio = 1 / 2\<rparr> = Inr st'
            \<and> length (buf st') = 4096 \<and> max_buf st' = 2048)"
proof -
  let ?rep = "\<lparr>index = 0, replaces = [\<lparr>search = ''a'', replace = ''bb''\<rparr>],
       maxSearchLen = 1, maxReplaceLen = 2, maxRatio = 1 / 2\<rparr>"
  have ok: "Some rd_abc \<noteq> None \<and> maxSearchLen ?rep \<noteq> 0" by simp
  with ResetEx_capacity [of zero_StreamReplacingReader "Some rd_abc" ?rep]
  obtain st' where r: "ResetEx zero_StreamReplacingReader (Some rd_abc) ?rep = Inr st'" by blast
  from ResetEx_capacity [of zero_StreamReplacingReader "Some rd_abc" ?rep st'] r
  have "length (buf st') = 4096 \<and> max_buf st' = 2048"
    by (simp add: zero_StreamReplacingReader_def f64_mul_def f64_to_int_def f64_of_nat_exact)
  with ok r show ?thesis by blast
qed

text \<open>
  The claim as it was stated fails on a reset that finds a longer buffer. A first
  \<open>ResetEx\<close> with a search token of 5000 bytes allocates 5000 bytes; a second one with the
  pair \<open>a \<rightarrow> b\<close> keeps them, so the capacity and the fill bound are 5000, not
  \<open>max(4096, 1, 1) = 4096\<close>.
\<close>

theorem ResetEx_capacity_counterexample:
  "NewReplacer [replicate 5000 (CHR ''a''), ''b'']
     = Inr \<lparr>index = 0, replaces = [\<lparr>search = replicate 5000 (CHR ''a''), replace = ''b''\<rparr>],
            maxSearchLen = 5000, maxReplaceLen = 1, maxRatio = - 1\<rparr>
   \<and> NewReplacer [''a'', ''b'']
     = Inr \<lparr>index = 0, replaces = [\<lparr>search = ''a'', replace = ''b''\<rparr>],
            maxSearchLen = 1, maxReplaceLen = 1, maxRatio = - 1\<rparr>
   \<and> then_ResetEx
        (ResetEx zero_StreamReplacingReader (Some rd_abc)
           \<lparr>index = 0, replaces = [\<lparr>search = replicate 5000 (CHR ''a''), replace = ''b''\<rparr>],
            maxSearchLen = 5000, maxReplaceLen = 1, maxRatio = - 1\<rparr>)
        (Some rd_abc)
        \<lparr>index = 0, replaces = [\<lparr>search = ''a'', replace = ''b''\<rparr>],
         maxSearchLen = 1, maxReplaceLen = 1, maxRatio = - 1\<rparr>
     = Inr \<lparr>replacer = Some \<lparr>index = 0, replaces = [\<lparr>search = ''a'', replace = ''b''\<rparr>],
                             maxSearchLen = 1, maxReplaceLen = 1, maxRatio = - 1\<rparr>,
            maxSearchTokenLen = 1, r_reader = Some rd_abc, err = None,
            buf = replicate 5000 (CHR 0x00), buf0 = 0, buf1 = 0, max_buf = 5000\<rparr>
   \<and> max (4096::nat) (max 1 1) \<noteq> length (replicate 5000 (CHR 0x00))"
  by (simp add: NewReplacer_def Let_def byteReplace_GetSizingHints_def then_ResetEx_def ResetEx_def
        zero_StreamReplacingReader_def replacer_GetSizingHints_def defaultBufSize_def)

section \<open>The terminal condition\<close>
















section \<open>The retained tail\<close>

text \<open>
  The advance of \<open>buf0\<close> after a scan without a match, written with natural numbers, is the
  Go expression \<^verbatim>\<open>max(r.buf0, r.buf1-r.maxSearchTokenLen+1)\<close> on integers.
\<close>

lemma retained_tail_as_int:
  "int (max b0 (b1 + 1 - m)) = max (int b0) (int b1 - int m + 1)"
  by linarith

text \<open>
  A scan of \<open>[buf0, buf1)\<close> that finds no match leaves the inner loop with \<open>buf0\<close> advanced
  to that value and nothing else changed, and then at most \<open>maxSearchTokenLen - 1\<close> bytes
  are unprocessed.
\<close>

lemma scan_no_match:
  assumes "replacer st = Some rep" "buf0 st \<le> buf1 st" "buf1 st \<le> length (buf st)"
    and "fst (replacer_Index rep (slice (buf st) (buf0 st) (buf1 st))) < 0"
  shows "scan st = Inr (st\<lparr>buf0 := max (buf0 st) (buf1 st + 1 - maxSearchTokenLen st)\<rparr>)"
    and "0 < maxSearchTokenLen st \<Longrightarrow>
           buf1 st - max (buf0 st) (buf1 st + 1 - maxSearchTokenLen st) \<le> maxSearchTokenLen st - 1"
  using assms by (auto simp: scan.simps [of st] scan_body_def split: prod.splits)

section \<open>The whole-string replace\<close>

text \<open>
  The replace the stream is compared with scans the whole input once from left to right.
  At each position the first registered pair whose search token starts there is replaced
  and the scan goes on behind the token; where no token starts, the byte is kept. This is
  what \<^verbatim>\<open>strings.NewReplacer(oldnews...).Replace\<close> computes for search strings that are not
  empty.
\<close>

fun match_at :: "byteReplace list \<Rightarrow> bytes \<Rightarrow> byteReplace option" where
  "match_at [] text = None"
| "match_at (p # ps) text =
     (if search p \<noteq> [] \<and> prefix (search p) text then Some p else match_at ps text)"

lemma match_at_Some: "match_at ps text = Some p \<Longrightarrow> search p \<noteq> [] \<and> prefix (search p) text"
  by (induction ps) (auto split: if_splits)

function canonical_replace :: "byteReplace list \<Rightarrow> bytes \<Rightarrow> bytes" where
  "canonical_replace ps [] = []"
| "canonical_replace ps (c # cs) =
     (case match_at ps (c # cs) of
        None \<Rightarrow> c # canonical_replace ps cs
      | Some p \<Rightarrow> replace p @ canonical_replace ps (drop (length (search p)) (c # cs)))"
  by pat_completeness auto
termination
proof (relation "measure (\<lambda>(ps, text). length text)", goal_cases)
  case 1
  show ?case by simp
next
  case (2 ps c cs)
  show ?case by simp
next
  case (3 ps c cs p)
  then have "search p \<noteq> []" by (simp add: match_at_Some)
  then show ?case by (cases "search p") simp_all
qed

section \<open>Streams that differ from the whole-string replace\<close>

lemmas run_defs = Read_body_def scan_body_def reader_Read_def replacer_Index_def
  byteReplace_Index_def slice_def copy_at_def len_def content_def Let_def scan.simps
  numeral_3_eq_3

lemmas stream_defs = stream_replace_def NewReplacer_def Replace_def ResetEx_def
  zero_StreamReplacingReader_def replacer_GetSizingHints_def byteReplace_GetSizingHints_def
  defaultBufSize_def run_defs

text \<open>
  The pairs of the repository's test, \<open>zt \<rightarrow> zhangtian\<close> and \<open>tzzzzzzzztzzzt \<rightarrow> zt2\<close>. The
  first pair grows, with the \<^verbatim>\<open>float64\<close> ratio \<open>2/9\<close>, and the fill bound of the 4096 bytes
  is 910.
\<close>

lemma f64_two_ninths:
  "0 < f64_div 2 9 \<and> f64_to_int (f64_mul (f64_div 2 9) 4096) = 910"
  by code_simp

definition rep_zt :: replacer where
  "rep_zt = \<lparr>index = 0,
             replaces = [\<lparr>search = ''zt'', replace = ''zhangtian''\<rparr>,
                         \<lparr>search = ''tzzzzzzzztzzzt'', replace = ''zt2''\<rparr>],
             maxSearchLen = 14, maxReplaceLen = 9, maxRatio = f64_div 2 9\<rparr>"

definition st_zt :: "reader \<Rightarrow> StreamReplacingReader" where
  "st_zt rd = \<lparr>replacer = Some rep_zt, maxSearchTokenLen = 14, r_reader = Some rd, err = None,
               buf = replicate 4096 (CHR 0x00), buf0 = 0, buf1 = 0, max_buf = 910\<rparr>"

lemma NewReplacer_rep_zt:
  "NewReplacer [''zt'', ''zhangtian'', ''tzzzzzzzztzzzt'', ''zt2''] = Inr rep_zt"
  using f64_two_ninths
  by (simp add: NewReplacer_def Let_def byteReplace_GetSizingHints_def f64_of_nat_exact rep_zt_def)

lemma Replace_rep_zt: "Replace rep_zt (Some rd) = Inr (st_zt rd)"
  using f64_two_ninths
  by (simp add: Replace_def ResetEx_def zero_StreamReplacingReader_def replacer_GetSizingHints_def
        defaultBufSize_def rep_zt_def st_zt_def f64_of_nat_exact)

text \<open>
  The input is the second token, once. A reader that delivers it in one read, and a reader
  that delivers its first ten bytes and then the other four.
\<close>

definition rd_whole :: reader where
  "rd_whole = \<lparr>pending = ''tzzzzzzzztzzzt'', chunks = [], final = EOF, final_with_data = False\<rparr>"

definition rd_split :: reader where
  "rd_split = \<lparr>pending = ''tzzzzzzzztzzzt'', chunks = [10, 4], final = EOF, final_with_data = False\<rparr>"

lemma pull_all_rd_whole:
  "pull_all 3 3 (st_zt rd_whole) 512 = Some (Inr (''zt2'', EOF))"
  by (simp add: run_defs st_zt_def rd_whole_def rep_zt_def)

lemma pull_all_rd_split:
  "pull_all 3 3 (st_zt rd_split) 512 = Some (Inr (''tzzzzzzzzhangtianzzzhangtian'', EOF))"
  by (simp add: run_defs st_zt_def rd_split_def rep_zt_def)

text \<open>
  C1. With the pairs of the repository's test and the input \<open>tzzzzzzzztzzzt\<close> the
  whole-string replace gives \<open>zt2\<close>, and so does the stream when the underlying reader
  delivers the input in one read. When the reader delivers \<open>tzzzzzzzzt\<close> and then \<open>zzzt\<close>,
  the stream finds \<open>zt\<close> at the end of the first chunk and replaces it, and gives
  \<open>tzzzzzzzzhangtianzzzhangtian\<close>.
\<close>

theorem chunked_stream_differs_from_whole_string:
  "stream_replace [''zt'', ''zhangtian'', ''tzzzzzzzztzzzt'', ''zt2''] rd_split 512 3 3
     = Some (Inr (''tzzzzzzzzhangtianzzzhangtian'', EOF))
   \<and> canonical_replace (kept_pairs [''zt'', ''zhangtian'', ''tzzzzzzzztzzzt'', ''zt2''])
        ''tzzzzzzzztzzzt'' = ''zt2''
   \<and> stream_replace [''zt'', ''zhangtian'', ''tzzzzzzzztzzzt'', ''zt2''] rd_whole 512 3 3
     = Some (Inr (''zt2'', EOF))"
  using NewReplacer_rep_zt Replace_rep_zt pull_all_rd_whole pull_all_rd_split
  by (simp add: stream_replace_def)

text \<open>
  The order of registration is lost in the same way. With the pairs \<open>ab \<rightarrow> X\<close> and
  \<open>a \<rightarrow> Y\<close>, in this order, and the input \<open>ab\<close> the whole-string replace gives \<open>X\<close>; the
  stream gives \<open>Yb\<close> when the reader delivers one byte per read.
\<close>

lemma registration_order_depends_on_chunks:
  "stream_replace [''ab'', ''X'', ''a'', ''Y'']
      \<lparr>pending = ''ab'', chunks = [1, 1], final = EOF, final_with_data = False\<rparr> 512 3 3
     = Some (Inr (''Yb'', EOF))
   \<and> canonical_replace (kept_pairs [''ab'', ''X'', ''a'', ''Y'']) ''ab'' = ''X''
   \<and> stream_replace [''ab'', ''X'', ''a'', ''Y'']
      \<lparr>pending = ''ab'', chunks = [], final = EOF, final_with_data = False\<rparr> 512 3 3
     = Some (Inr (''X'', EOF))"
  by (simp add: stream_defs)

text \<open>
  C6. The pairs \<open>abc \<rightarrow> X\<close> and \<open>b \<rightarrow> Y\<close> and the input \<open>abc\<close>. Delivered in one read the
  token \<open>abc\<close> is found and the stream gives \<open>X\<close>. Delivered one byte per read the token is
  not found: the stream gives \<open>aYc\<close>.
\<close>

theorem split_token_not_replaced:
  "stream_replace [''abc'', ''X'', ''b'', ''Y'']
      \<lparr>pending = ''abc'', chunks = [1, 1, 1], final = EOF, final_with_data = False\<rparr> 512 3 3
     = Some (Inr (''aYc'', EOF))
   \<and> stream_replace [''abc'', ''X'', ''b'', ''Y'']
      \<lparr>pending = ''abc'', chunks = [], final = EOF, final_with_data = False\<rparr> 512 3 3
     = Some (Inr (''X'', EOF))
   \<and> canonical_replace (kept_pairs [''abc'', ''X'', ''b'', ''Y'']) ''abc'' = ''X''"
  by (simp add: stream_defs)

section \<open>Growth beyond the buffer\<close>

text \<open>
  The pairs \<open>a \<rightarrow> bb\<close> and \<open>c \<rightarrow> d\<dots>d\<close> with 4096 bytes of \<open>d\<close>, a reader over the input
  \<open>cc\<close>, and the stream \<open>Replace\<close> makes of them.
\<close>

definition rep_grow :: replacer where
  "rep_grow = \<lparr>index = 0,
               replaces = [\<lparr>search = ''a'', replace = ''bb''\<rparr>,
                           \<lparr>search = ''c'', replace = replicate 4096 (CHR ''d'')\<rparr>],
               maxSearchLen = 1, maxReplaceLen = 4096, maxRatio = 1 / 2\<rparr>"

definition rd_cc :: reader where
  "rd_cc = \<lparr>pending = ''cc'', chunks = [], final = EOF, final_with_data = False\<rparr>"

definition st_grow :: StreamReplacingReader where
  "st_grow = \<lparr>replacer = Some rep_grow, maxSearchTokenLen = 1, r_reader = Some rd_cc, err = None,
              buf = replicate 4096 (CHR 0x00), buf0 = 0, buf1 = 0, max_buf = 2048\<rparr>"

lemma NewReplacer_rep_grow:
  "NewReplacer [''a'', ''bb'', ''c'', replicate 4096 (CHR ''d'')] = Inr rep_grow"
  using f64_round_inverse_power2 [of 1] f64_round_inverse_power2 [of 12]
  by (simp add: NewReplacer_def Let_def byteReplace_GetSizingHints_def f64_div_def
        f64_of_nat_exact rep_grow_def)

lemma Replace_rep_grow: "Replace rep_grow (Some rd_cc) = Inr st_grow"
  by (simp add: Replace_def ResetEx_def zero_StreamReplacingReader_def replacer_GetSizingHints_def
        defaultBufSize_def rep_grow_def st_grow_def f64_mul_def f64_to_int_def f64_of_nat_exact)

text \<open>
  The first read delivers \<open>cc\<close>, which is within the fill bound of 2048. The scan finds \<open>c\<close>
  at index 0; with \<open>buf1 = 2\<close> and \<open>lenDelta = 4095\<close> the slice
  \<^verbatim>\<open>r.buf[index+replaceTokenLen : r.buf1+lenDelta]\<close> would end at 4097, beyond the 4096
  bytes of the buffer.
\<close>

lemma scan_body_overflow:
  "scan_body (st_grow\<lparr>r_reader := Some (rd_cc\<lparr>pending := []\<rparr>),
                      buf := ''cc'' @ replicate 4094 (CHR 0x00), buf1 := 2\<rparr>) = Inl SliceBounds"
  by (simp add: scan_body_def st_grow_def rep_grow_def replacer_Index_def byteReplace_Index_def
        slice_def len_def)

lemma Read_body_overflow: "Read_body st_grow 512 = Inl SliceBounds"
  by (simp add: Read_body_def reader_Read_def rd_cc_def copy_at_def scan.simps st_grow_def
        scan_body_def rep_grow_def replacer_Index_def byteReplace_Index_def slice_def len_def)

text \<open>
  C2. With these pairs the replacer reports the ratio \<open>1/2\<close>, the buffer has 4096 bytes and
  the fill bound is 2048. On the input \<open>cc\<close> the first \<open>Read\<close> panics with a slice out of
  range: the write boundary after the first replacement would be 4097.
\<close>

theorem growth_overflows_buffer:
  "NewReplacer [''a'', ''bb'', ''c'', replicate 4096 (CHR ''d'')] = Inr rep_grow
   \<and> Replace rep_grow (Some rd_cc) = Inr st_grow
   \<and> length (buf st_grow) = 4096 \<and> max_buf st_grow = 2048
   \<and> Read 1 st_grow 512 = Some (Inl SliceBounds)
   \<and> stream_replace [''a'', ''bb'', ''c'', replicate 4096 (CHR ''d'')] rd_cc 512 1 1
       = Some (Inl SliceBounds)"
  using NewReplacer_rep_grow Replace_rep_grow Read_body_overflow
  by (simp add: stream_replace_def st_grow_def)

section \<open>A fill bound of zero\<close>

text \<open>
  The pair \<open>a \<rightarrow> b\<dots>b\<close> with 6272 bytes of \<open>b\<close>. The \<^verbatim>\<open>float64\<close> quotient \<open>1/6272\<close> is
  rounded down, and its \<^verbatim>\<open>float64\<close> product with 6272 is the largest \<^verbatim>\<open>float64\<close> below
  \<open>1\<close>, so the fill bound \<^verbatim>\<open>int(ratio * float64(len(r.buf)))\<close> is \<open>0\<close>.
\<close>

lemma f64_tiny_ratio:
  "0 < f64_div 1 6272 \<and> 0 \<le> f64_mul (f64_div 1 6272) 6272 \<and> f64_mul (f64_div 1 6272) 6272 < 1"
  by code_simp

definition rep_long :: replacer where
  "rep_long = \<lparr>index = 0, replaces = [\<lparr>search = ''a'', replace = replicate 6272 (CHR ''b'')\<rparr>],
               maxSearchLen = 1, maxReplaceLen = 6272, maxRatio = f64_div 1 6272\<rparr>"

definition rd_a :: reader where
  "rd_a = \<lparr>pending = ''a'', chunks = [], final = EOF, final_with_data = False\<rparr>"

definition st_long :: StreamReplacingReader where
  "st_long = \<lparr>replacer = Some rep_long, maxSearchTokenLen = 1, r_reader = Some rd_a, err = None,
              buf = replicate 6272 (CHR 0x00), buf0 = 0, buf1 = 0, max_buf = 0\<rparr>"

lemma NewReplacer_rep_long: "NewReplacer [''a'', replicate 6272 (CHR ''b'')] = Inr rep_long"
  using f64_tiny_ratio
  by (simp add: NewReplacer_def Let_def byteReplace_GetSizingHints_def f64_of_nat_exact rep_long_def)

lemma Replace_rep_long: "Replace rep_long (Some rd_a) = Inr st_long"
proof -
  have "nat (f64_to_int (f64_mul (f64_div 1 6272) 6272)) = 0"
    using f64_tiny_ratio by (simp add: f64_to_int_def)
  then show ?thesis
    using f64_tiny_ratio
    by (simp add: Replace_def ResetEx_def zero_StreamReplacingReader_def replacer_GetSizingHints_def
        defaultBufSize_def rep_long_def st_long_def f64_of_nat_exact)
qed

text \<open>
  Every pass of \<open>Read\<close> then hands the underlying reader an empty slice, gets no bytes and
  no error, and leaves the state as it was: \<open>Read\<close> does not return, whatever the number of
  passes, and the token \<open>a\<close> of the input is never replaced.
\<close>

lemma Read_body_st_long: "Read_body st_long plen = Inr (None, st_long)"
  by (simp add: Read_body_def st_long_def rd_a_def reader_Read_def copy_at_def)

lemma Read_st_long_never_returns: "Read fuel st_long plen = None"
  by (induction fuel) (simp_all add: Read_body_st_long)

section \<open>The fixed-size pool rejects a buffer of the wrong length\<close>

text \<open>
  C9. For every pool and every buffer whose length is not the pool's buffer size,
  \<open>Put\<close> returns an error and the pool, free list included, is the one it was given:
  the buffer is not pooled and nothing is removed.
\<close>

theorem Put_wrong_length:
  "int (length b) \<noteq> bufSize fp \<Longrightarrow>
     (\<exists>e. fst (Put fp b) = Some e) \<and> snd (Put fp b) = fp
     \<and> freeList (snd (Put fp b)) = freeList fp"
  by (simp add: Put_def)

theorem Put_wrong_length_witness:
  "int (length ''abc'') \<noteq> bufSize \<lparr>freeList = [''zz''], freeCap = 4, bufSize = 2\<rparr>
   \<and> (\<exists>e. fst (Put \<lparr>freeList = [''zz''], freeCap = 4, bufSize = 2\<rparr> ''abc'') = Some e)
   \<and> freeList (snd (Put \<lparr>freeList = [''zz''], freeCap = 4, bufSize = 2\<rparr> ''abc'')) = [''zz'']"
  using Put_wrong_length [of "''abc''" "\<lparr>freeList = [''zz''], freeCap = 4, bufSize = 2\<rparr>"]
  by simp

end
